theory Spec2Isabelle
  imports Complex_Main
begin

section \<open>Orders API: the controller of the orders table\<close>

text \<open>
  The handlers \<^verbatim>\<open>createOrder\<close>, \<^verbatim>\<open>getOrders\<close>, \<^verbatim>\<open>updateOrder\<close> and
  \<^verbatim>\<open>deleteOrder\<close> of the controller are embedded as functions from the request and
  the table to a response and, for the three that write, the table after the call. The
  JavaScript
  built-ins the controller relies on (truthiness, \<^verbatim>\<open>parseInt\<close>, \<^verbatim>\<open>parseFloat\<close>,
  \<^verbatim>\<open>isNaN\<close>, \<^verbatim>\<open><=\<close> on mixed operands) and the SQL statements it sends are given
  their language semantics below.

  Conventions of the model:
  \<^item> a JSON number is a rational (\<open>JNum\<close>); rounding to an IEEE double, signed zero and
    overflow to an infinity are not modelled, so numerals are meant within the range
    where doubles are exact enough for the comparisons made;
  \<^item> a body field is a scalar JSON value or absent (\<open>JUndefined\<close>); arrays and nested
    objects as field values are outside the model;
  \<^item> a query parameter and the route parameter \<^verbatim>\<open>id\<close> are strings;
  \<^item> strings are byte strings: white space is the ASCII white space of ECMAScript
    (TAB, LF, VT, FF, CR, SP);
  \<^item> a stored value is an SQLite value of storage class NULL, numeric or TEXT, as the
    driver binds it; the conversions of column affinity on insertion are not modelled;
  \<^item> the storage engine runs every statement; it fails only on a table constraint.
\<close>

subsection \<open>JavaScript values and numbers\<close>

datatype number = NaN | NegInf | Fin rat | PosInf

datatype jsval = JUndefined | JNull | JBool bool | JNum rat | JStr string

text \<open>\<^verbatim>\<open>!v\<close> is \<open>\<not> truthy v\<close>: the falsy scalars are undefined, null, false, 0 and
  the empty string.\<close>

fun truthy :: "jsval \<Rightarrow> bool" where
  "truthy JUndefined = False"
| "truthy JNull = False"
| "truthy (JBool b) = b"
| "truthy (JNum q) = (q \<noteq> 0)"
| "truthy (JStr s) = (s \<noteq> [])"

text \<open>The IEEE comparison \<^verbatim>\<open>a <= b\<close> on numbers: false as soon as one side is NaN.\<close>

fun num_le :: "number \<Rightarrow> number \<Rightarrow> bool" where
  "num_le NaN _ = False"
| "num_le _ NaN = False"
| "num_le NegInf _ = True"
| "num_le _ PosInf = True"
| "num_le (Fin a) (Fin b) = (a \<le> b)"
| "num_le (Fin a) NegInf = False"
| "num_le PosInf (Fin b) = False"
| "num_le PosInf NegInf = False"

fun num_less :: "number \<Rightarrow> number \<Rightarrow> bool" where
  "num_less NaN _ = False"
| "num_less _ NaN = False"
| "num_less PosInf _ = False"
| "num_less _ NegInf = False"
| "num_less (Fin a) (Fin b) = (a < b)"
| "num_less NegInf _ = True"
| "num_less (Fin a) PosInf = True"

subsection \<open>Scanning numerals in strings\<close>

definition is_ws :: "char \<Rightarrow> bool" where
  "is_ws c = ((of_char c :: nat) \<in> {9, 10, 11, 12, 13, 32})"

definition is_digit :: "char \<Rightarrow> bool" where
  "is_digit c = (48 \<le> (of_char c :: nat) \<and> (of_char c :: nat) \<le> 57)"

definition is_hex_digit :: "char \<Rightarrow> bool" where
  "is_hex_digit c =
     (is_digit c \<or> (65 \<le> (of_char c :: nat) \<and> (of_char c :: nat) \<le> 70)
                 \<or> (97 \<le> (of_char c :: nat) \<and> (of_char c :: nat) \<le> 102))"

definition is_oct_digit :: "char \<Rightarrow> bool" where
  "is_oct_digit c = (48 \<le> (of_char c :: nat) \<and> (of_char c :: nat) \<le> 55)"

definition is_bin_digit :: "char \<Rightarrow> bool" where
  "is_bin_digit c = (c = CHR ''0'' \<or> c = CHR ''1'')"

definition digit_val :: "char \<Rightarrow> nat" where
  "digit_val c =
     (let n = (of_char c :: nat)
      in if n \<le> 57 then n - 48 else if n \<le> 70 then n - 55 else n - 87)"

definition digits_val :: "nat \<Rightarrow> string \<Rightarrow> nat" where
  "digits_val radix ds = foldl (\<lambda>a c. radix * a + digit_val c) 0 ds"

definition trim_start :: "string \<Rightarrow> string" where
  "trim_start s = dropWhile is_ws s"

definition trim :: "string \<Rightarrow> string" where
  "trim s = rev (dropWhile is_ws (rev (dropWhile is_ws s)))"

text \<open>An optional sign in front of a numeral: the factor and the rest.\<close>

fun take_sign :: "string \<Rightarrow> int \<times> string" where
  "take_sign [] = (1, [])"
| "take_sign (c # cs) =
     (if c = CHR ''-'' then (-1, cs) else if c = CHR ''+'' then (1, cs) else (1, c # cs))"

definition pow10 :: "int \<Rightarrow> rat" where
  "pow10 e = (if 0 \<le> e then 10 ^ nat e else 1 / 10 ^ nat (- e))"

text \<open>\<open>ExponentPart\<close>: \<^verbatim>\<open>e\<close> or \<^verbatim>\<open>E\<close>, an optional sign and at least one digit. When
  the digits are missing the exponent is not part of the numeral.\<close>

definition exponent_part :: "string \<Rightarrow> int \<times> string" where
  "exponent_part s =
     (case s of
        [] \<Rightarrow> (0, [])
      | c # cs \<Rightarrow>
          if c = CHR ''e'' \<or> c = CHR ''E'' then
            (case take_sign cs of
               (sg, t) \<Rightarrow>
                 if takeWhile is_digit t = [] then (0, s)
                 else (sg * int (digits_val 10 (takeWhile is_digit t)), dropWhile is_digit t))
          else (0, s))"

text \<open>The longest prefix that is a \<open>StrUnsignedDecimalLiteral\<close> other than
  \<^verbatim>\<open>Infinity\<close>: digits, an optional fraction, an optional exponent; its value and the
  rest of the string.\<close>

definition unsigned_decimal :: "string \<Rightarrow> (rat \<times> string) option" where
  "unsigned_decimal s =
     (let ip = takeWhile is_digit s;
          r1 = dropWhile is_digit s;
          dot = (r1 \<noteq> [] \<and> hd r1 = CHR ''.'');
          fp = (if dot then takeWhile is_digit (tl r1) else []);
          r2 = (if dot then dropWhile is_digit (tl r1) else r1)
      in if ip = [] \<and> fp = [] then None
         else (case exponent_part r2 of
                 (e, r3) \<Rightarrow>
                   Some ((of_nat (digits_val 10 ip)
                          + of_nat (digits_val 10 fp) / 10 ^ length fp) * pow10 e, r3)))"

text \<open>The longest prefix that is a \<open>StrDecimalLiteral\<close>: an optional sign, then
  \<^verbatim>\<open>Infinity\<close> or an unsigned decimal.\<close>

definition decimal_prefix :: "string \<Rightarrow> (number \<times> string) option" where
  "decimal_prefix s =
     (case take_sign s of
        (sg, t) \<Rightarrow>
          if take 8 t = ''Infinity'' then Some (if sg < 0 then NegInf else PosInf, drop 8 t)
          else (case unsigned_decimal t of
                  None \<Rightarrow> None
                | Some (v, r) \<Rightarrow> Some (Fin (of_int sg * v), r)))"

text \<open>\<^verbatim>\<open>parseFloat(s)\<close>: leading white space is skipped, the longest decimal prefix is
  read, and what follows it is ignored.\<close>

definition parseFloat :: "string \<Rightarrow> number" where
  "parseFloat s = (case decimal_prefix (trim_start s) of None \<Rightarrow> NaN | Some (v, _) \<Rightarrow> v)"

text \<open>\<^verbatim>\<open>parseInt(s)\<close> with no radix: leading white space, an optional sign, an optional
  \<^verbatim>\<open>0x\<close> prefix selecting radix 16, then the longest run of digits of the radix; NaN
  (\<open>None\<close>) when the run is empty.\<close>

definition parseInt :: "string \<Rightarrow> int option" where
  "parseInt s =
     (case take_sign (trim_start s) of
        (sg, t) \<Rightarrow>
          if take 2 t = ''0x'' \<or> take 2 t = ''0X'' then
            (if takeWhile is_hex_digit (drop 2 t) = [] then None
             else Some (sg * int (digits_val 16 (takeWhile is_hex_digit (drop 2 t)))))
          else
            (if takeWhile is_digit t = [] then None
             else Some (sg * int (digits_val 10 (takeWhile is_digit t)))))"

text \<open>\<open>StringToNumber\<close>, the conversion behind \<^verbatim>\<open>isNaN(s)\<close> and \<^verbatim>\<open>s <= 0\<close>: the
  trimmed string is empty (0), an unsigned \<^verbatim>\<open>0x\<close>, \<^verbatim>\<open>0o\<close> or \<^verbatim>\<open>0b\<close> integer, or a
  decimal literal with nothing after it; anything else is NaN.\<close>

definition radix_literal :: "(char \<Rightarrow> bool) \<Rightarrow> nat \<Rightarrow> string \<Rightarrow> number" where
  "radix_literal ok radix ds =
     (if ds \<noteq> [] \<and> list_all ok ds then Fin (of_nat (digits_val radix ds)) else NaN)"

definition StringToNumber :: "string \<Rightarrow> number" where
  "StringToNumber s =
     (let t = trim s
      in if t = [] then Fin 0
         else if take 2 t = ''0x'' \<or> take 2 t = ''0X'' then radix_literal is_hex_digit 16 (drop 2 t)
         else if take 2 t = ''0o'' \<or> take 2 t = ''0O'' then radix_literal is_oct_digit 8 (drop 2 t)
         else if take 2 t = ''0b'' \<or> take 2 t = ''0B'' then radix_literal is_bin_digit 2 (drop 2 t)
         else (case decimal_prefix t of
                 None \<Rightarrow> NaN
               | Some (v, r) \<Rightarrow> if r = [] then v else NaN))"

fun ToNumber :: "jsval \<Rightarrow> number" where
  "ToNumber JUndefined = NaN"
| "ToNumber JNull = Fin 0"
| "ToNumber (JBool b) = Fin (if b then 1 else 0)"
| "ToNumber (JNum q) = Fin q"
| "ToNumber (JStr s) = StringToNumber s"

text \<open>\<^verbatim>\<open>v <= 0\<close>, as the controller writes it for quantity and amount: the left operand
  is converted to a number, since the right one is a number.\<close>

definition le_zero :: "jsval \<Rightarrow> bool" where
  "le_zero v = num_le (ToNumber v) (Fin 0)"

text \<open>\<^verbatim>\<open>isNaN(s)\<close> on a string.\<close>

definition isNaN :: "string \<Rightarrow> bool" where
  "isNaN s = (StringToNumber s = NaN)"

subsection \<open>The orders table\<close>

text \<open>A value as SQLite stores and compares it. The storage classes are ordered NULL,
  then the numeric values (with the two infinities a REAL can hold), then TEXT, which is
  compared byte by byte.\<close>

datatype sqlval = SNull | SNegInf | SNum rat | SPosInf | SText string

fun text_less :: "string \<Rightarrow> string \<Rightarrow> bool" where
  "text_less [] [] = False"
| "text_less [] (y # ys) = True"
| "text_less (x # xs) [] = False"
| "text_less (x # xs) (y # ys) =
     ((of_char x :: nat) < of_char y \<or> (x = y \<and> text_less xs ys))"

fun rank :: "sqlval \<Rightarrow> nat" where
  "rank SNull = 0"
| "rank SNegInf = 1"
| "rank (SNum _) = 2"
| "rank SPosInf = 3"
| "rank (SText _) = 4"

fun same_class_less :: "sqlval \<Rightarrow> sqlval \<Rightarrow> bool" where
  "same_class_less (SNum a) (SNum b) = (a < b)"
| "same_class_less (SText s) (SText t) = text_less s t"
| "same_class_less _ _ = False"

definition sql_less :: "sqlval \<Rightarrow> sqlval \<Rightarrow> bool" where
  "sql_less a b = (rank a < rank b \<or> (rank a = rank b \<and> same_class_less a b))"

text \<open>The comparison operators of a WHERE clause: a comparison with NULL is unknown, and
  the row is not selected.\<close>

definition sql_eq :: "sqlval \<Rightarrow> sqlval \<Rightarrow> bool" where
  "sql_eq a b = (a \<noteq> SNull \<and> b \<noteq> SNull \<and> a = b)"

definition sql_ge :: "sqlval \<Rightarrow> sqlval \<Rightarrow> bool" where
  "sql_ge a b = (a \<noteq> SNull \<and> b \<noteq> SNull \<and> \<not> sql_less a b)"

definition sql_le :: "sqlval \<Rightarrow> sqlval \<Rightarrow> bool" where
  "sql_le a b = (a \<noteq> SNull \<and> b \<noteq> SNull \<and> \<not> sql_less b a)"

text \<open>How the driver binds a JavaScript value to a \<^verbatim>\<open>?\<close> of a statement.\<close>

fun bind_number :: "number \<Rightarrow> sqlval" where
  "bind_number NaN = SNull"
| "bind_number NegInf = SNegInf"
| "bind_number (Fin q) = SNum q"
| "bind_number PosInf = SPosInf"

fun bind_value :: "jsval \<Rightarrow> sqlval" where
  "bind_value JUndefined = SNull"
| "bind_value JNull = SNull"
| "bind_value (JBool b) = SNum (if b then 1 else 0)"
| "bind_value (JNum q) = SNum q"
| "bind_value (JStr s) = SText s"

text \<open>A row of \<^verbatim>\<open>orders\<close>, as \<^verbatim>\<open>initializeDatabase\<close> declares the table. The fields
  \<open>id'\<close> and \<open>product'\<close> are the columns \<^verbatim>\<open>id\<close> and \<^verbatim>\<open>product\<close>.\<close>

record order =
  id' :: int
  customer_name :: sqlval
  product' :: sqlval
  quantity :: sqlval
  amount :: sqlval
  status :: sqlval
  order_date :: sqlval
  created_at :: sqlval

text \<open>The table and the counter that AUTOINCREMENT keeps of the largest id ever given.\<close>

record db =
  orders :: "order list"
  sqlite_sequence :: int

definition validStatuses :: "string list" where
  "validStatuses = [''pending'', ''processing'', ''completed'', ''cancelled'']"

text \<open>The constraints of the table: six columns NOT NULL and the CHECK on
  \<^verbatim>\<open>status\<close> (which, as every CHECK, a NULL passes).\<close>

definition check_status :: "sqlval \<Rightarrow> bool" where
  "check_status v = (v = SNull \<or> list_ex (\<lambda>s. v = SText s) validStatuses)"

definition constraints_ok :: "order \<Rightarrow> bool" where
  "constraints_ok r =
     (customer_name r \<noteq> SNull \<and> product' r \<noteq> SNull \<and> quantity r \<noteq> SNull \<and>
      amount r \<noteq> SNull \<and> status r \<noteq> SNull \<and> order_date r \<noteq> SNull \<and>
      check_status (status r))"

definition next_id :: "db \<Rightarrow> int" where
  "next_id d = foldr max (map id' (orders d)) (sqlite_sequence d) + 1"

text \<open>\<^verbatim>\<open>INSERT INTO orders (customer_name, product, quantity, amount, status, order_date)
  VALUES (?, ?, ?, ?, ?, ?)\<close>: the new id and the table after it, or \<open>None\<close> when a
  constraint fails. \<open>now\<close> is CURRENT_TIMESTAMP, the default of \<^verbatim>\<open>created_at\<close>.\<close>

definition insert_order ::
  "db \<Rightarrow> string \<Rightarrow> sqlval \<Rightarrow> sqlval \<Rightarrow> sqlval \<Rightarrow> sqlval \<Rightarrow> sqlval \<Rightarrow> sqlval \<Rightarrow> (int \<times> db) option"
where
  "insert_order d now cn p q a st od =
     (let r = \<lparr>id' = next_id d, customer_name = cn, product' = p, quantity = q,
               amount = a, status = st, order_date = od, created_at = SText now\<rparr>
      in if constraints_ok r
         then Some (next_id d, \<lparr>orders = orders d @ [r], sqlite_sequence = next_id d\<rparr>)
         else None)"

text \<open>\<^verbatim>\<open>WHERE id = ?\<close> with the route parameter bound as TEXT: the column is an
  integer, so the engine first turns a parameter that is a well-formed decimal numeral
  (white space around it allowed) into a number; any other text equals no id.\<close>

definition numeric_affinity :: "string \<Rightarrow> sqlval" where
  "numeric_affinity s =
     (case take_sign (trim s) of
        (sg, t) \<Rightarrow>
          (case unsigned_decimal t of
             None \<Rightarrow> SText s
           | Some (v, r) \<Rightarrow> if r = [] then SNum (of_int sg * v) else SText s))"

definition id_matches :: "string \<Rightarrow> order \<Rightarrow> bool" where
  "id_matches p r = sql_eq (SNum (of_int (id' r))) (numeric_affinity p)"

datatype column = Customer_name | Product | Quantity | Amount | Status | Order_date

fun assign :: "column \<times> sqlval \<Rightarrow> order \<Rightarrow> order" where
  "assign (Customer_name, v) r = r\<lparr>customer_name := v\<rparr>"
| "assign (Product, v) r = r\<lparr>product' := v\<rparr>"
| "assign (Quantity, v) r = r\<lparr>quantity := v\<rparr>"
| "assign (Amount, v) r = r\<lparr>amount := v\<rparr>"
| "assign (Status, v) r = r\<lparr>status := v\<rparr>"
| "assign (Order_date, v) r = r\<lparr>order_date := v\<rparr>"

text \<open>\<^verbatim>\<open>UPDATE orders SET c1 = ?, ... WHERE id = ?\<close>: the number of rows changed and the
  table after it, or \<open>None\<close> when a changed row fails a constraint.\<close>

definition update_orders :: "db \<Rightarrow> (column \<times> sqlval) list \<Rightarrow> string \<Rightarrow> (nat \<times> db) option" where
  "update_orders d sets p =
     (let changed = map (\<lambda>r. foldl (\<lambda>r' s. assign s r') r sets) (filter (id_matches p) (orders d))
      in if list_all constraints_ok changed
         then Some (length changed,
                    d\<lparr>orders := map (\<lambda>r. if id_matches p r then foldl (\<lambda>r' s. assign s r') r sets else r)
                                   (orders d)\<rparr>)
         else None)"

text \<open>\<^verbatim>\<open>DELETE FROM orders WHERE id = ?\<close>: the number of rows removed and the table
  after it.\<close>

definition delete_orders :: "db \<Rightarrow> string \<Rightarrow> nat \<times> db" where
  "delete_orders d p =
     (length (filter (id_matches p) (orders d)),
      d\<lparr>orders := filter (\<lambda>r. \<not> id_matches p r) (orders d)\<rparr>)"

subsection \<open>Requests and responses\<close>

text \<open>\<^verbatim>\<open>req.body\<close> is the JSON object of the request and \<^verbatim>\<open>req.query\<close> the query
  string: a field that is not there reads as \<^verbatim>\<open>undefined\<close>.\<close>

type_synonym body = "string \<rightharpoonup> jsval"

type_synonym query = "string \<rightharpoonup> string"

definition field :: "body \<Rightarrow> string \<Rightarrow> jsval" where
  "field b k = (case b k of None \<Rightarrow> JUndefined | Some v \<Rightarrow> v)"

text \<open>A query parameter is falsy when it is missing or empty.\<close>

fun given :: "string option \<Rightarrow> bool" where
  "given None = False"
| "given (Some s) = (s \<noteq> [])"

fun ToString :: "string option \<Rightarrow> string" where
  "ToString None = ''undefined''"
| "ToString (Some s) = s"

text \<open>The error bodies of the controller, with the lists they carry.\<close>

datatype error =
    MissingFields "string list"
  | InvalidStatus "string list"
  | InvalidMagnitude
  | InvalidPagination
  | InvalidStatusFilter "string list"
  | InvalidMinAmount
  | InvalidMaxAmount
  | InvalidOrderId
  | NoFieldsToUpdate
  | NotFound
  | DatabaseError

fun http_status :: "error \<Rightarrow> nat" where
  "http_status NotFound = 404"
| "http_status DatabaseError = 500"
| "http_status _ = 400"

text \<open>\<^verbatim>\<open>validStatuses.includes(v)\<close>: only a string can equal a member.\<close>

fun includes_val :: "string list \<Rightarrow> jsval \<Rightarrow> bool" where
  "includes_val xs (JStr s) = (s \<in> set xs)"
| "includes_val xs _ = False"

subsection \<open>createOrder\<close>

definition required_fields :: "string list" where
  "required_fields =
     [''customer_name'', ''product'', ''quantity'', ''amount'', ''status'', ''order_date'']"

text \<open>The 201 body: the new id and the six values as they were sent.\<close>

datatype created = Created int jsval jsval jsval jsval jsval jsval

definition createOrder :: "db \<Rightarrow> string \<Rightarrow> body \<Rightarrow> (error + created) \<times> db" where
  "createOrder d now b =
     (let customer_name = field b ''customer_name'';
          product = field b ''product'';
          quantity = field b ''quantity'';
          amount = field b ''amount'';
          status = field b ''status'';
          order_date = field b ''order_date''
      in if \<not> truthy customer_name \<or> \<not> truthy product \<or> \<not> truthy quantity \<or>
            \<not> truthy amount \<or> \<not> truthy status \<or> \<not> truthy order_date
         then (Inl (MissingFields required_fields), d)
         else if \<not> includes_val validStatuses status
         then (Inl (InvalidStatus validStatuses), d)
         else if le_zero quantity \<or> le_zero amount
         then (Inl InvalidMagnitude, d)
         else (case insert_order d now (bind_value customer_name) (bind_value product)
                      (bind_value quantity) (bind_value amount) (bind_value status)
                      (bind_value order_date) of
                 None \<Rightarrow> (Inl DatabaseError, d)
               | Some (lastID, d') \<Rightarrow>
                   (Inr (Created lastID customer_name product quantity amount status order_date),
                    d')))"

subsection \<open>getOrders\<close>

text \<open>\<^verbatim>\<open>parseInt(x) || dflt\<close>: NaN and 0 are falsy, so both give the default.\<close>

definition or_default :: "int option \<Rightarrow> int \<Rightarrow> int" where
  "or_default v dflt = (case v of None \<Rightarrow> dflt | Some n \<Rightarrow> if n = 0 then dflt else n)"

definition page_of :: "query \<Rightarrow> int" where
  "page_of q = or_default (parseInt (ToString (q ''page''))) 1"

definition limit_of :: "query \<Rightarrow> int" where
  "limit_of q = or_default (parseInt (ToString (q ''limit''))) 10"

text \<open>The fragments pushed on \<^verbatim>\<open>filters\<close>; \<^verbatim>\<open>params\<close> holds the value bound to the
  \<^verbatim>\<open>?\<close> of each, in the same order.\<close>

datatype fragment = Status_eq | Amount_ge | Amount_le | Order_date_ge | Order_date_le

fun fragment_holds :: "fragment \<Rightarrow> sqlval \<Rightarrow> order \<Rightarrow> bool" where
  "fragment_holds Status_eq v r = sql_eq (status r) v"
| "fragment_holds Amount_ge v r = sql_ge (amount r) v"
| "fragment_holds Amount_le v r = sql_le (amount r) v"
| "fragment_holds Order_date_ge v r = sql_ge (order_date r) v"
| "fragment_holds Order_date_le v r = sql_le (order_date r) v"

text \<open>\<^verbatim>\<open>filters.join(' AND ')\<close> with its parameters bound in order; a \<^verbatim>\<open>?\<close> left
  without a value is NULL. With no filter there is no WHERE clause.\<close>

fun where_holds :: "fragment list \<Rightarrow> sqlval list \<Rightarrow> order \<Rightarrow> bool" where
  "where_holds [] ps r = True"
| "where_holds (f # fs) [] r = (fragment_holds f SNull r \<and> where_holds fs [] r)"
| "where_holds (f # fs) (p # ps) r = (fragment_holds f p r \<and> where_holds fs ps r)"

type_synonym clause = "fragment list \<times> sqlval list"

definition push :: "fragment \<Rightarrow> sqlval \<Rightarrow> clause \<Rightarrow> clause" where
  "push f v c = (fst c @ [f], snd c @ [v])"

definition status_filter :: "query \<Rightarrow> clause \<Rightarrow> error + clause" where
  "status_filter q c =
     (if given (q ''status'') then
        (if the (q ''status'') \<notin> set validStatuses then Inl (InvalidStatusFilter validStatuses)
         else Inr (push Status_eq (SText (the (q ''status''))) c))
      else Inr c)"

definition minAmount_filter :: "query \<Rightarrow> clause \<Rightarrow> error + clause" where
  "minAmount_filter q c =
     (if given (q ''minAmount'') then
        (let minAmount = parseFloat (the (q ''minAmount''))
         in if minAmount = NaN \<or> num_less minAmount (Fin 0) then Inl InvalidMinAmount
            else Inr (push Amount_ge (bind_number minAmount) c))
      else Inr c)"

definition maxAmount_filter :: "query \<Rightarrow> clause \<Rightarrow> error + clause" where
  "maxAmount_filter q c =
     (if given (q ''maxAmount'') then
        (let maxAmount = parseFloat (the (q ''maxAmount''))
         in if maxAmount = NaN \<or> num_less maxAmount (Fin 0) then Inl InvalidMaxAmount
            else Inr (push Amount_le (bind_number maxAmount) c))
      else Inr c)"

definition startDate_filter :: "query \<Rightarrow> clause \<Rightarrow> clause" where
  "startDate_filter q c =
     (if given (q ''startDate'') then push Order_date_ge (SText (the (q ''startDate''))) c else c)"

definition endDate_filter :: "query \<Rightarrow> clause \<Rightarrow> clause" where
  "endDate_filter q c =
     (if given (q ''endDate'') then push Order_date_le (SText (the (q ''endDate''))) c else c)"

text \<open>The five steps in the order of the source; the first failing one returns.\<close>

definition build_where :: "query \<Rightarrow> error + clause" where
  "build_where q =
     (case status_filter q ([], []) of
        Inl e \<Rightarrow> Inl e
      | Inr c1 \<Rightarrow>
          (case minAmount_filter q c1 of
             Inl e \<Rightarrow> Inl e
           | Inr c2 \<Rightarrow>
               (case maxAmount_filter q c2 of
                  Inl e \<Rightarrow> Inl e
                | Inr c3 \<Rightarrow> Inr (endDate_filter q (startDate_filter q c3)))))"

text \<open>\<^verbatim>\<open>ORDER BY order_date DESC, id DESC\<close>: \<open>comes_before a b\<close> when \<open>a\<close> is listed
  strictly before \<open>b\<close>.\<close>

definition comes_before :: "order \<Rightarrow> order \<Rightarrow> bool" where
  "comes_before a b =
     (sql_less (order_date b) (order_date a) \<or>
      (\<not> sql_less (order_date a) (order_date b) \<and> id' b < id' a))"

fun insert_ordered :: "order \<Rightarrow> order list \<Rightarrow> order list" where
  "insert_ordered x [] = [x]"
| "insert_ordered x (y # ys) =
     (if comes_before x y then x # y # ys else y # insert_ordered x ys)"

definition order_by :: "order list \<Rightarrow> order list" where
  "order_by xs = foldr insert_ordered xs []"

text \<open>\<^verbatim>\<open>LIMIT ? OFFSET ?\<close>: a negative offset is 0 and a negative limit is no limit.\<close>

definition limit_offset :: "int \<Rightarrow> int \<Rightarrow> 'a list \<Rightarrow> 'a list" where
  "limit_offset n k xs =
     (if n < 0 then drop (nat k) xs else take (nat n) (drop (nat k) xs))"

record pagination =
  page :: int
  limit :: int
  totalOrders :: nat
  totalPages :: int
  hasNextPage :: bool
  hasPreviousPage :: bool

record listing =
  data :: "order list"
  pagination :: pagination

definition getOrders :: "db \<Rightarrow> query \<Rightarrow> error + listing" where
  "getOrders d q =
     (let page = page_of q;
          limit = limit_of q;
          offset = (page - 1) * limit
      in if page < 1 \<or> limit < 1 \<or> limit > 100 then Inl InvalidPagination
         else (case build_where q of
                 Inl e \<Rightarrow> Inl e
               | Inr (filters, params) \<Rightarrow>
                   (let totalOrders = length (filter (where_holds filters params) (orders d));
                        totalPages = \<lceil>(of_nat totalOrders :: rat) / of_int limit\<rceil>;
                        rows = limit_offset limit offset
                                 (order_by (filter (where_holds filters params) (orders d)))
                    in Inr \<lparr>data = rows,
                            pagination = \<lparr>page = page, limit = limit, totalOrders = totalOrders,
                                           totalPages = totalPages,
                                           hasNextPage = (page < totalPages),
                                           hasPreviousPage = (page > 1)\<rparr>\<rparr>)))"

subsection \<open>updateOrder and deleteOrder\<close>

text \<open>\<^verbatim>\<open>!id || isNaN(id)\<close> on the route parameter.\<close>

definition invalid_id :: "string \<Rightarrow> bool" where
  "invalid_id p = (p = [] \<or> isNaN p)"

text \<open>\<^verbatim>\<open>if (v) { updates.push('c = ?'); params.push(v); }\<close>\<close>

definition push_update :: "column \<Rightarrow> jsval \<Rightarrow> (column \<times> sqlval) list \<Rightarrow> (column \<times> sqlval) list" where
  "push_update c v updates = (if truthy v then updates @ [(c, bind_value v)] else updates)"

definition build_updates :: "body \<Rightarrow> (column \<times> sqlval) list" where
  "build_updates b =
     push_update Order_date (field b ''order_date'')
       (push_update Status (field b ''status'')
         (push_update Amount (field b ''amount'')
           (push_update Quantity (field b ''quantity'')
             (push_update Product (field b ''product'')
               (push_update Customer_name (field b ''customer_name'') [])))))"

definition updateOrder :: "db \<Rightarrow> string \<Rightarrow> body \<Rightarrow> (error + string) \<times> db" where
  "updateOrder d p b =
     (let quantity = field b ''quantity'';
          amount = field b ''amount'';
          status = field b ''status''
      in if invalid_id p then (Inl InvalidOrderId, d)
         else if truthy status \<and> \<not> includes_val validStatuses status
         then (Inl (InvalidStatus validStatuses), d)
         else if (quantity \<noteq> JUndefined \<and> le_zero quantity) \<or>
                 (amount \<noteq> JUndefined \<and> le_zero amount)
         then (Inl InvalidMagnitude, d)
         else if build_updates b = [] then (Inl NoFieldsToUpdate, d)
         else (case update_orders d (build_updates b) p of
                 None \<Rightarrow> (Inl DatabaseError, d)
               | Some (changes, d') \<Rightarrow>
                   if changes = 0 then (Inl NotFound, d') else (Inr p, d')))"

definition deleteOrder :: "db \<Rightarrow> string \<Rightarrow> (error + string) \<times> db" where
  "deleteOrder d p =
     (if invalid_id p then (Inl InvalidOrderId, d)
      else (case delete_orders d p of
              (changes, d') \<Rightarrow>
                if changes = 0 then (Inl NotFound, d') else (Inr p, d')))"

subsection \<open>What the specification says, as predicates\<close>

text \<open>The required fields that a create request leaves absent or falsy.\<close>

definition absent_fields :: "body \<Rightarrow> string list" where
  "absent_fields b = filter (\<lambda>k. \<not> truthy (field b k)) required_fields"




definition enumerated_status :: "sqlval \<Rightarrow> bool" where
  "enumerated_status v = list_ex (\<lambda>s. v = SText s) validStatuses"




text \<open>What create validation does guarantee of a stored value: it was bound from a
  truthy value, and a number among quantity and amount is above zero.\<close>

definition from_truthy :: "sqlval \<Rightarrow> bool" where
  "from_truthy v = (v \<noteq> SNull \<and> v \<noteq> SText [] \<and> v \<noteq> SNum 0)"



text \<open>The predicate of a listing: one conjunct for each filter that is present, in the
  words of the specification.\<close>

definition satisfies :: "query \<Rightarrow> order \<Rightarrow> bool" where
  "satisfies q r =
     ((given (q ''status'') \<longrightarrow> sql_eq (status r) (SText (the (q ''status'')))) \<and>
      (given (q ''minAmount'') \<longrightarrow>
         sql_ge (amount r) (bind_number (parseFloat (the (q ''minAmount''))))) \<and>
      (given (q ''maxAmount'') \<longrightarrow>
         sql_le (amount r) (bind_number (parseFloat (the (q ''maxAmount''))))) \<and>
      (given (q ''startDate'') \<longrightarrow> sql_ge (order_date r) (SText (the (q ''startDate'')))) \<and>
      (given (q ''endDate'') \<longrightarrow> sql_le (order_date r) (SText (the (q ''endDate'')))))"

definition active_conjuncts :: "query \<Rightarrow> (fragment \<times> sqlval) list" where
  "active_conjuncts q =
     (if given (q ''status'') then [(Status_eq, SText (the (q ''status'')))] else []) @
     (if given (q ''minAmount'')
      then [(Amount_ge, bind_number (parseFloat (the (q ''minAmount''))))] else []) @
     (if given (q ''maxAmount'')
      then [(Amount_le, bind_number (parseFloat (the (q ''maxAmount''))))] else []) @
     (if given (q ''startDate'') then [(Order_date_ge, SText (the (q ''startDate'')))] else []) @
     (if given (q ''endDate'') then [(Order_date_le, SText (the (q ''endDate'')))] else [])"

text \<open>Calling \<^verbatim>\<open>DELETE /orders/:id\<close> \<open>n\<close> times in a row: the responses, first call
  first, and the table at the end.\<close>

fun delete_repeatedly :: "nat \<Rightarrow> db \<Rightarrow> string \<Rightarrow> (error + string) list \<times> db" where
  "delete_repeatedly 0 d p = ([], d)"
| "delete_repeatedly (Suc n) d p =
     (case deleteOrder d p of
        (res, d') \<Rightarrow> (case delete_repeatedly n d' p of (rs, d'') \<Rightarrow> (res # rs, d'')))"

subsection \<open>Sample data\<close>

definition empty_db :: db where
  "empty_db = \<lparr>orders = [], sqlite_sequence = 0\<rparr>"

definition alice :: body where
  "alice = [''customer_name'' \<mapsto> JStr ''Alice'', ''product'' \<mapsto> JStr ''Mouse'',
            ''quantity'' \<mapsto> JNum 1, ''amount'' \<mapsto> JNum 50, ''status'' \<mapsto> JStr ''pending'',
            ''order_date'' \<mapsto> JStr ''2026-01-01'']"

definition alice_row :: order where
  "alice_row = \<lparr>id' = 1, customer_name = SText ''Alice'', product' = SText ''Mouse'',
                 quantity = SNum 1, amount = SNum 50, status = SText ''pending'',
                 order_date = SText ''2026-01-01'', created_at = SText ''2026-01-01 09:00:00''\<rparr>"

definition bob_row :: order where
  "bob_row = \<lparr>id' = 2, customer_name = SText ''Bob'', product' = SText ''Laptop'',
               quantity = SNum 2, amount = SNum 1500, status = SText ''completed'',
               order_date = SText ''2026-01-01'', created_at = SText ''2026-01-02 10:30:00''\<rparr>"

definition carol_row :: order where
  "carol_row = \<lparr>id' = 3, customer_name = SText ''Carol'', product' = SText ''Monitor'',
                 quantity = SNum 1, amount = SNum 900, status = SText ''pending'',
                 order_date = SText ''2026-02-05'', created_at = SText ''2026-02-05 08:15:00''\<rparr>"

definition sample_db :: db where
  "sample_db = \<lparr>orders = [alice_row, bob_row, carol_row], sqlite_sequence = 3\<rparr>"



section \<open>Properties\<close>

subsection \<open>Evaluation and the shape of a listing response\<close>

lemmas scan_defs = parseInt_def parseFloat_def StringToNumber_def trim_start_def trim_def
  is_ws_def is_digit_def is_hex_digit_def digits_val_def digit_val_def decimal_prefix_def
  unsigned_decimal_def exponent_part_def pow10_def radix_literal_def

lemmas filter_defs = status_filter_def minAmount_filter_def maxAmount_filter_def
  startDate_filter_def endDate_filter_def push_def





subsection \<open>Pagination parameters\<close>

text \<open>
  C1. Filter validation is specified to default page to 1 and limit to 10 and to fail
  with InvalidPagination exactly when page < 1 or limit is outside [1, 100], so that
  \<^verbatim>\<open>GET /orders?page=0\<close> returns 400. The controller does check \<^verbatim>\<open>page < 1\<close>, but
  only after \<^verbatim>\<open>parseInt(req.query.page) || 1\<close> has replaced the falsy 0 by the
  default: on every table \<^verbatim>\<open>GET /orders?page=0\<close> is answered with a listing of page 1
  and limit 10.
\<close>

theorem getOrders_page_zero_accepted:
  "\<exists>l. getOrders d [''page'' \<mapsto> ''0''] = Inr l \<and>
       page (pagination l) = 1 \<and> limit (pagination l) = 10"
proof -
  have p: "page_of [''page'' \<mapsto> ''0''] = 1"
    by (simp add: page_of_def or_default_def scan_defs)
  have l: "limit_of [''page'' \<mapsto> ''0''] = 10"
    by (simp add: limit_of_def or_default_def scan_defs)
  have w: "build_where [''page'' \<mapsto> ''0''] = Inr ([], [])"
    by (simp add: build_where_def filter_defs)
  show ?thesis
    by (simp add: getOrders_def Let_def p l w)
qed




subsection \<open>Creating an order\<close>

lemma absent_fields_empty_iff:
  "absent_fields b = [] \<longleftrightarrow>
     truthy (field b ''customer_name'') \<and> truthy (field b ''product'') \<and>
     truthy (field b ''quantity'') \<and> truthy (field b ''amount'') \<and>
     truthy (field b ''status'') \<and> truthy (field b ''order_date'')"
  by (simp add: absent_fields_def required_fields_def filter_empty_conv)

lemma createOrder_MissingFields_iff:
  "(\<exists>ns. fst (createOrder d now b) = Inl (MissingFields ns)) \<longleftrightarrow> absent_fields b \<noteq> []"
  by (auto simp: createOrder_def Let_def absent_fields_empty_iff split: option.splits)

lemma alice_absent: "absent_fields (alice(''order_date'' := None)) = [''order_date'']"
  by (simp add: absent_fields_def required_fields_def alice_def field_def)

text \<open>
  C7, as amended. When at least one of the six required fields is absent or falsy,
  create validation fails with MissingFields (HTTP 400) and the table is left as it was.
  The failure carries the fixed list of the six required names: every absent field is in
  it, and so are the fields that were sent.
\<close>

theorem createOrder_missing_fields:
  "absent_fields b \<noteq> [] \<Longrightarrow>
     createOrder d now b = (Inl (MissingFields required_fields), d) \<and>
     http_status (MissingFields required_fields) = 400 \<and>
     set (absent_fields b) \<subseteq> set required_fields"
  by (auto simp: createOrder_def Let_def absent_fields_empty_iff)
     (auto simp: absent_fields_def)

text \<open>The order of Alice without its date, on the sample table.\<close>

theorem createOrder_missing_fields_witness:
  "absent_fields (alice(''order_date'' := None)) = [''order_date''] \<and>
   createOrder sample_db ''2026-03-01 12:00:00'' (alice(''order_date'' := None))
     = (Inl (MissingFields required_fields), sample_db)"
  using createOrder_missing_fields[of "alice(''order_date'' := None)" sample_db
          "''2026-03-01 12:00:00''"]
  by (simp add: alice_absent)

text \<open>C7 as it is written fails: with only \<^verbatim>\<open>order_date\<close> absent, the failure names
  all six fields, not exactly the absent one.\<close>

theorem missing_fields_names_all_counterexample:
  "absent_fields (alice(''order_date'' := None)) = [''order_date''] \<and>
   fst (createOrder empty_db ''2026-03-01 12:00:00'' (alice(''order_date'' := None)))
     = Inl (MissingFields [''customer_name'', ''product'', ''quantity'', ''amount'', ''status'',
                           ''order_date''])"
proof -
  have "fst (createOrder empty_db ''2026-03-01 12:00:00'' (alice(''order_date'' := None)))
     = Inl (MissingFields [''customer_name'', ''product'', ''quantity'', ''amount'', ''status'',
                           ''order_date''])"
    by (simp add: createOrder_def Let_def alice_def field_def required_fields_def)
  then show ?thesis
    by (simp add: alice_absent)
qed

lemma truthy_bind: "truthy v \<Longrightarrow> from_truthy (bind_value v)"
  by (cases v) (auto simp: from_truthy_def)


lemma status_bind:
  "includes_val validStatuses v \<Longrightarrow>
     enumerated_status (bind_value v) \<and> check_status (bind_value v) \<and> bind_value v \<noteq> SNull"
  by (cases v) (auto simp: enumerated_status_def check_status_def list_ex_iff)

lemma from_truthy_not_null: "from_truthy v \<Longrightarrow> v \<noteq> SNull"
  by (simp add: from_truthy_def)

text \<open>The INSERT of a validated order breaks no constraint of the table.\<close>

lemma createOrder_no_database_error: "fst (createOrder d now b) \<noteq> Inl DatabaseError"
  by (auto simp: createOrder_def Let_def insert_order_def constraints_ok_def
        status_bind truthy_bind[THEN from_truthy_not_null]
      split: if_splits option.splits)




subsection \<open>Updating an order\<close>

lemma falsy_supplied_le_zero: "v \<noteq> JUndefined \<Longrightarrow> \<not> truthy v \<Longrightarrow> le_zero v"
  by (cases v) (auto simp: le_zero_def StringToNumber_def trim_def)

lemma field_upd: "field (b(k := x)) k' = (if k' = k then (case x of None \<Rightarrow> JUndefined | Some v \<Rightarrow> v) else field b k')"
  by (simp add: field_def)

lemma field_Some: "b k = Some v \<Longrightarrow> field b k = v"
  by (simp add: field_def)

lemma push_update_falsy: "\<not> truthy v \<Longrightarrow> push_update c v us = us"
  by (simp add: push_update_def)

lemma skip_customer_name:
  "b ''customer_name'' = Some v \<Longrightarrow> \<not> truthy v \<Longrightarrow>
     updateOrder d p b = updateOrder d p (b(''customer_name'' := None))"
  by (simp add: updateOrder_def build_updates_def field_upd field_Some push_update_falsy Let_def)

lemma skip_product:
  "b ''product'' = Some v \<Longrightarrow> \<not> truthy v \<Longrightarrow>
     updateOrder d p b = updateOrder d p (b(''product'' := None))"
  by (simp add: updateOrder_def build_updates_def field_upd field_Some push_update_falsy Let_def)

lemma skip_status:
  "b ''status'' = Some v \<Longrightarrow> \<not> truthy v \<Longrightarrow>
     updateOrder d p b = updateOrder d p (b(''status'' := None))"
  by (simp add: updateOrder_def build_updates_def field_upd field_Some push_update_falsy Let_def)

lemma skip_order_date:
  "b ''order_date'' = Some v \<Longrightarrow> \<not> truthy v \<Longrightarrow>
     updateOrder d p b = updateOrder d p (b(''order_date'' := None))"
  by (simp add: updateOrder_def build_updates_def field_upd field_Some push_update_falsy Let_def)

lemma updateOrder_rejected_unchanged:
  "fst (updateOrder d p b) \<in> {Inl InvalidOrderId, Inl (InvalidStatus validStatuses), Inl InvalidMagnitude, Inl NoFieldsToUpdate, Inl DatabaseError} \<Longrightarrow> snd (updateOrder d p b) = d"
  by (auto simp: updateOrder_def Let_def split: if_splits option.splits)

text \<open>
  C2, as amended. In an update request a falsy value sent for customer_name, product,
  status or order_date is treated as absent and silently skipped: the response and the
  table are those of the same request without the field. A falsy value sent for quantity
  or amount (null, false, 0 or the empty string, for example \<^verbatim>\<open>quantity: 0\<close>) is not
  skipped but rejected: the table stays as it was, and once the id is numeric and the
  status passes, the response is InvalidMagnitude.
\<close>

theorem update_falsy_values:
  "(k \<in> {''customer_name'', ''product'', ''status'', ''order_date''} \<and> b k = Some v \<and> \<not> truthy v \<longrightarrow>
      updateOrder d p b = updateOrder d p (b(k := None))) \<and>
   (k \<in> {''quantity'', ''amount''} \<and> b k = Some v \<and> v \<noteq> JUndefined \<and> \<not> truthy v \<longrightarrow>
      snd (updateOrder d p b) = d \<and>
      fst (updateOrder d p b) \<in> {Inl InvalidOrderId, Inl (InvalidStatus validStatuses), Inl InvalidMagnitude} \<and>
      (\<not> invalid_id p \<and> (truthy (field b ''status'') \<longrightarrow> includes_val validStatuses (field b ''status'')) \<longrightarrow>
         updateOrder d p b = (Inl InvalidMagnitude, d)))"
proof (intro conjI impI)
  assume "k \<in> {''customer_name'', ''product'', ''status'', ''order_date''} \<and> b k = Some v \<and> \<not> truthy v"
  then show "updateOrder d p b = updateOrder d p (b(k := None))"
    using skip_customer_name skip_product skip_status skip_order_date by blast
next
  assume a: "k \<in> {''quantity'', ''amount''} \<and> b k = Some v \<and> v \<noteq> JUndefined \<and> \<not> truthy v"
  then have le: "le_zero v" and f: "field b k = v"
    by (simp_all add: falsy_supplied_le_zero field_Some)
  from a le f have bad: "(field b ''quantity'' \<noteq> JUndefined \<and> le_zero (field b ''quantity'')) \<or>
                 (field b ''amount'' \<noteq> JUndefined \<and> le_zero (field b ''amount''))"
    by auto
  from bad show r: "fst (updateOrder d p b) \<in> {Inl InvalidOrderId, Inl (InvalidStatus validStatuses), Inl InvalidMagnitude}"
    by (auto simp: updateOrder_def Let_def)
  then show "snd (updateOrder d p b) = d"
    using updateOrder_rejected_unchanged[of d p b] by blast
  {
    assume "\<not> invalid_id p \<and> (truthy (field b ''status'') \<longrightarrow> includes_val validStatuses (field b ''status''))"
    with bad show "updateOrder d p b = (Inl InvalidMagnitude, d)"
      by (auto simp: updateOrder_def Let_def)
  }
qed

lemma one_valid: "\<not> invalid_id ''1''"
  by (simp add: invalid_id_def isNaN_def scan_defs)

lemma one_aff: "numeric_affinity ''1'' = SNum 1"
  by (simp add: numeric_affinity_def scan_defs)

lemma sample_match: "filter (id_matches ''1'') (orders sample_db) = [alice_row]"
  by (simp add: id_matches_def one_aff sql_eq_def sample_db_def alice_row_def bob_row_def carol_row_def)

text \<open>C2 as it is written fails on its own example: \<^verbatim>\<open>quantity: 0\<close> next to a new
  status is rejected with InvalidMagnitude, while the same request without the quantity
  is carried out.\<close>

theorem update_quantity_zero_rejected_counterexample:
  "fst (updateOrder sample_db ''1'' [''status'' \<mapsto> JStr ''completed'', ''quantity'' \<mapsto> JNum 0])
     = Inl InvalidMagnitude \<and>
   fst (updateOrder sample_db ''1'' [''status'' \<mapsto> JStr ''completed'']) = Inr ''1''"
proof -
  have "fst (updateOrder sample_db ''1'' [''status'' \<mapsto> JStr ''completed'', ''quantity'' \<mapsto> JNum 0])
     = Inl InvalidMagnitude"
    by (simp add: updateOrder_def Let_def one_valid field_def validStatuses_def le_zero_def)
  moreover have "build_updates [''status'' \<mapsto> JStr ''completed''] = [(Status, SText ''completed'')]"
    by (simp add: build_updates_def push_update_def field_def)
  then have "fst (updateOrder sample_db ''1'' [''status'' \<mapsto> JStr ''completed'']) = Inr ''1''"
    by (simp add: updateOrder_def Let_def one_valid field_def validStatuses_def le_zero_def
          update_orders_def sample_match alice_row_def constraints_ok_def check_status_def)
  ultimately show ?thesis by simp
qed

text \<open>On the sample table: an empty customer_name is skipped, a zero quantity is
  rejected.\<close>

theorem update_falsy_values_witness:
  "updateOrder sample_db ''1'' [''status'' \<mapsto> JStr ''completed'', ''customer_name'' \<mapsto> JStr '''']
     = updateOrder sample_db ''1'' [''status'' \<mapsto> JStr ''completed''] \<and>
   updateOrder sample_db ''1'' [''status'' \<mapsto> JStr ''completed'', ''quantity'' \<mapsto> JNum 0]
     = (Inl InvalidMagnitude, sample_db)"
proof -
  let ?b1 = "[''status'' \<mapsto> JStr ''completed'', ''customer_name'' \<mapsto> JStr '''']"
  let ?b2 = "[''status'' \<mapsto> JStr ''completed'', ''quantity'' \<mapsto> JNum 0]"
  have 1: "?b1(''customer_name'' := None) = [''status'' \<mapsto> JStr ''completed'']"
    by (simp add: fun_upd_twist)
  have s: "includes_val validStatuses (field ?b2 ''status'')"
    by (simp add: field_def validStatuses_def)
  show ?thesis
    using update_falsy_values[of "''customer_name''" ?b1 "JStr ''''" sample_db "''1''"]
          update_falsy_values[of "''quantity''" ?b2 "JNum 0" sample_db "''1''"]
          one_valid s
    by (simp add: 1)
qed

subsection \<open>Not found\<close>

lemma no_match_filter: "filter P xs = [] \<Longrightarrow> filter (\<lambda>r. \<not> P r) xs = xs"
  by (simp add: filter_empty_conv filter_id_conv)

lemma no_match_map: "filter P xs = [] \<Longrightarrow> map (\<lambda>r. if P r then f r else r) xs = xs"
  by (induction xs) (auto split: if_splits)

lemma deleteOrder_NotFound_iff:
  "\<not> invalid_id p \<Longrightarrow>
     fst (deleteOrder d p) = Inl NotFound \<longleftrightarrow> length (filter (id_matches p) (orders d)) = 0"
  by (simp add: deleteOrder_def delete_orders_def)

lemma deleteOrder_NotFound_unchanged:
  "fst (deleteOrder d p) = Inl NotFound \<Longrightarrow> deleteOrder d p = (Inl NotFound, d)"
  by (auto simp: deleteOrder_def delete_orders_def no_match_filter split: if_splits)

lemma delete_repeatedly_NotFound:
  "fst (deleteOrder d p) = Inl NotFound \<Longrightarrow>
     delete_repeatedly n d p = (replicate n (Inl NotFound), d)"
  by (induction n) (simp_all add: deleteOrder_NotFound_unchanged)

lemma updateOrder_NotFound_iff:
  "fst (updateOrder d p b) = Inl NotFound \<longleftrightarrow>
     fst (updateOrder d p b) \<notin> {Inl InvalidOrderId, Inl (InvalidStatus validStatuses),
                                 Inl InvalidMagnitude, Inl NoFieldsToUpdate} \<and>
     length (filter (id_matches p) (orders d)) = 0"
  by (auto simp: updateOrder_def Let_def update_orders_def split: if_splits)

lemma updateOrder_NotFound_unchanged:
  "fst (updateOrder d p b) = Inl NotFound \<Longrightarrow> updateOrder d p b = (Inl NotFound, d)"
  by (auto simp: updateOrder_def Let_def update_orders_def no_match_map split: if_splits)

lemma deleteOrder_twice:
  "\<not> invalid_id p \<Longrightarrow> fst (deleteOrder (snd (deleteOrder d p)) p) = Inl NotFound"
  by (simp add: deleteOrder_def delete_orders_def split: if_splits)

text \<open>
  C6. For an update or a delete with a numeric id, the response is NotFound (HTTP 404)
  exactly when the statement affects no row, which for an update presupposes that
  validation let the request through to the statement. A call that fails so leaves the
  table as it was, hence deleting the same missing id any number of times gives 404
  every time.
\<close>

theorem not_found_iff_no_row_affected:
  assumes "\<not> invalid_id p"
  shows "(fst (deleteOrder d p) = Inl NotFound \<longleftrightarrow>
            length (filter (id_matches p) (orders d)) = 0) \<and>
         (fst (updateOrder d p b) = Inl NotFound \<longleftrightarrow>
            fst (updateOrder d p b) \<notin> {Inl (InvalidStatus validStatuses), Inl InvalidMagnitude,
                                        Inl NoFieldsToUpdate} \<and>
            length (filter (id_matches p) (orders d)) = 0) \<and>
         http_status NotFound = 404 \<and>
         (fst (deleteOrder d p) = Inl NotFound \<longrightarrow>
            snd (deleteOrder d p) = d \<and>
            delete_repeatedly n d p = (replicate n (Inl NotFound), d)) \<and>
         (fst (updateOrder d p b) = Inl NotFound \<longrightarrow> snd (updateOrder d p b) = d)"
proof (intro conjI impI)
  show "fst (deleteOrder d p) = Inl NotFound \<longleftrightarrow>
          length (filter (id_matches p) (orders d)) = 0"
    using assms by (rule deleteOrder_NotFound_iff)
  have "fst (updateOrder d p b) \<noteq> Inl InvalidOrderId"
    using assms by (auto simp: updateOrder_def Let_def split: if_splits option.splits)
  then show "fst (updateOrder d p b) = Inl NotFound \<longleftrightarrow>
            fst (updateOrder d p b) \<notin> {Inl (InvalidStatus validStatuses), Inl InvalidMagnitude,
                                        Inl NoFieldsToUpdate} \<and>
            length (filter (id_matches p) (orders d)) = 0"
    using updateOrder_NotFound_iff[of d p b] by auto
  show "http_status NotFound = 404" by simp
next
  assume "fst (deleteOrder d p) = Inl NotFound"
  then show "snd (deleteOrder d p) = d"
    and "delete_repeatedly n d p = (replicate n (Inl NotFound), d)"
    by (simp_all add: deleteOrder_NotFound_unchanged delete_repeatedly_NotFound)
next
  assume "fst (updateOrder d p b) = Inl NotFound"
  then show "snd (updateOrder d p b) = d"
    by (simp add: updateOrder_NotFound_unchanged)
qed

lemma id_99999: "\<not> invalid_id ''99999''"
  by (simp add: invalid_id_def isNaN_def scan_defs)

lemma aff_99999: "numeric_affinity ''99999'' = SNum 99999"
  by (simp add: numeric_affinity_def scan_defs)

lemma no_99999: "filter (id_matches ''99999'') (orders sample_db) = []"
  by (simp add: id_matches_def aff_99999 sql_eq_def sample_db_def alice_row_def bob_row_def carol_row_def)

text \<open>The id 99999 on the sample table, as in the tests of the repository.\<close>

theorem not_found_iff_no_row_affected_witness:
  "\<not> invalid_id ''99999'' \<and>
   deleteOrder sample_db ''99999'' = (Inl NotFound, sample_db) \<and>
   delete_repeatedly 2 sample_db ''99999'' = ([Inl NotFound, Inl NotFound], sample_db) \<and>
   updateOrder sample_db ''99999'' [''status'' \<mapsto> JStr ''completed''] = (Inl NotFound, sample_db)"
proof -
  have u: "fst (updateOrder sample_db ''99999'' [''status'' \<mapsto> JStr ''completed''])
            \<notin> {Inl (InvalidStatus validStatuses), Inl InvalidMagnitude, Inl NoFieldsToUpdate}"
    by (simp add: updateOrder_def Let_def id_99999 field_def validStatuses_def le_zero_def
          build_updates_def push_update_def update_orders_def no_99999)
  show ?thesis
    using not_found_iff_no_row_affected[OF id_99999, of sample_db
            "[''status'' \<mapsto> JStr ''completed'']" 2] u
    by (auto simp: id_99999 no_99999 prod_eq_iff numeral_2_eq_2)
qed

subsection \<open>The predicate of a listing\<close>

lemma list_all_opt: "list_all P (if g then [x] else []) = (g \<longrightarrow> P x)"
  by simp

lemma where_holds_pairs:
  "where_holds (map fst cs) (map snd cs) r = list_all (\<lambda>c. fragment_holds (fst c) (snd c) r) cs"
  by (induction cs) auto

lemma active_satisfies:
  "list_all (\<lambda>c. fragment_holds (fst c) (snd c) r) (active_conjuncts q) = satisfies q r"
  by (simp add: active_conjuncts_def satisfies_def list_all_opt)

lemma map_opt: "map f (if g then [x] else []) = (if g then [f x] else [])"
  by simp

lemma status_filter_Inr:
  "status_filter q c = Inr c' \<Longrightarrow>
     c' = (fst c @ (if given (q ''status'') then [Status_eq] else []),
           snd c @ (if given (q ''status'') then [SText (the (q ''status''))] else []))"
  by (auto simp: status_filter_def push_def split: if_splits)

lemma minAmount_filter_Inr:
  "minAmount_filter q c = Inr c' \<Longrightarrow>
     c' = (fst c @ (if given (q ''minAmount'') then [Amount_ge] else []),
           snd c @ (if given (q ''minAmount'')
                    then [bind_number (parseFloat (the (q ''minAmount'')))] else []))"
  by (auto simp: minAmount_filter_def push_def Let_def split: if_splits)

lemma maxAmount_filter_Inr:
  "maxAmount_filter q c = Inr c' \<Longrightarrow>
     c' = (fst c @ (if given (q ''maxAmount'') then [Amount_le] else []),
           snd c @ (if given (q ''maxAmount'')
                    then [bind_number (parseFloat (the (q ''maxAmount'')))] else []))"
  by (auto simp: maxAmount_filter_def push_def Let_def split: if_splits)

lemma startDate_filter_eq:
  "startDate_filter q c =
     (fst c @ (if given (q ''startDate'') then [Order_date_ge] else []),
      snd c @ (if given (q ''startDate'') then [SText (the (q ''startDate''))] else []))"
  by (simp add: startDate_filter_def push_def)

lemma endDate_filter_eq:
  "endDate_filter q c =
     (fst c @ (if given (q ''endDate'') then [Order_date_le] else []),
      snd c @ (if given (q ''endDate'') then [SText (the (q ''endDate''))] else []))"
  by (simp add: endDate_filter_def push_def)

lemma build_where_clause:
  assumes "build_where q = Inr c"
  shows "c = (map fst (active_conjuncts q), map snd (active_conjuncts q))"
proof -
  from assms obtain c1 c2 c3 where 1: "status_filter q ([], []) = Inr c1"
    and 2: "minAmount_filter q c1 = Inr c2" and 3: "maxAmount_filter q c2 = Inr c3"
    and c: "c = endDate_filter q (startDate_filter q c3)"
    by (auto simp: build_where_def split: sum.splits)
  show ?thesis
    unfolding c endDate_filter_eq startDate_filter_eq
      maxAmount_filter_Inr[OF 3] minAmount_filter_Inr[OF 2] status_filter_Inr[OF 1]
    by (simp add: active_conjuncts_def map_opt del: if_split cong: if_cong)
qed

lemma build_where_satisfies:
  assumes "build_where q = Inr (fs, ps)"
  shows "where_holds fs ps = satisfies q" and "zip fs ps = active_conjuncts q"
    and "length fs = length ps"
  using build_where_clause[OF assms]
  by (simp_all add: where_holds_pairs active_satisfies fun_eq_iff zip_map_fst_snd)

lemma set_insert_ordered: "set (insert_ordered x xs) = insert x (set xs)"
  by (induction xs) auto

lemma set_order_by: "set (order_by xs) = set xs"
  by (induction xs) (auto simp: order_by_def set_insert_ordered)



lemma set_limit_offset: "set (limit_offset n k xs) \<subseteq> set xs"
  by (auto simp: limit_offset_def dest: in_set_takeD in_set_dropD)

subsection \<open>The order of a listing and its pages\<close>

lemma text_less_irrefl: "\<not> text_less s s"
  by (induction s) auto

lemma text_less_trans: "text_less s t \<Longrightarrow> text_less t u \<Longrightarrow> text_less s u"
proof (induction s t arbitrary: u rule: text_less.induct)
  case (4 x xs y ys)
  then show ?case by (cases u) auto
qed (auto elim: text_less.elims)

lemma text_less_total: "\<not> text_less s t \<Longrightarrow> \<not> text_less t s \<Longrightarrow> s = t"
  by (induction s t rule: text_less.induct) (auto simp: not_less antisym)

lemma sql_less_irrefl: "\<not> sql_less a a"
  by (cases a) (auto simp: sql_less_def text_less_irrefl)

lemma sql_less_trans: "sql_less a b \<Longrightarrow> sql_less b c \<Longrightarrow> sql_less a c"
  by (cases a; cases b; cases c) (auto simp: sql_less_def dest: text_less_trans)

lemma sql_less_total: "\<not> sql_less a b \<Longrightarrow> \<not> sql_less b a \<Longrightarrow> a = b"
  by (cases a; cases b) (auto simp: sql_less_def dest: text_less_total)

lemma comes_before_alt:
  "comes_before a b \<longleftrightarrow>
     sql_less (order_date b) (order_date a) \<or> (order_date a = order_date b \<and> id' b < id' a)"
  using sql_less_total[of "order_date a" "order_date b"] sql_less_irrefl[of "order_date a"]
  by (auto simp: comes_before_def)

lemma comes_before_irrefl: "\<not> comes_before a a"
  by (simp add: comes_before_alt sql_less_irrefl)

lemma comes_before_trans: "comes_before a b \<Longrightarrow> comes_before b c \<Longrightarrow> comes_before a c"
  unfolding comes_before_alt using sql_less_trans by fastforce

lemma comes_before_asym: "comes_before a b \<Longrightarrow> \<not> comes_before b a"
  using comes_before_trans comes_before_irrefl by blast

lemma comes_before_total: "id' a \<noteq> id' b \<Longrightarrow> comes_before a b \<or> comes_before b a"
  unfolding comes_before_alt using sql_less_total[of "order_date a" "order_date b"] by auto

lemma sql_less_cases: "sql_less a b \<or> a = b \<or> sql_less b a"
  using sql_less_total by blast

lemma not_after_trans:
  assumes ab: "\<not> comes_before b a" and bc: "\<not> comes_before c b"
  shows "\<not> comes_before c a"
proof
  assume ca: "comes_before c a"
  from ab have 1: "\<not> sql_less (order_date a) (order_date b)"
    by (simp add: comes_before_alt)
  from bc have 2: "\<not> sql_less (order_date b) (order_date c)"
    by (simp add: comes_before_alt)
  have 3: "\<not> sql_less (order_date a) (order_date c)"
  proof
    assume ac: "sql_less (order_date a) (order_date c)"
    from 2 sql_less_cases[of "order_date b" "order_date c"]
    have "order_date b = order_date c \<or> sql_less (order_date c) (order_date b)" by blast
    with ac have "sql_less (order_date a) (order_date b)"
      by (auto intro: sql_less_trans)
    with 1 show False by simp
  qed
  with ca have eq_ac: "order_date c = order_date a" and id_ac: "id' a < id' c"
    by (simp_all add: comes_before_alt)
  from 1 2 eq_ac have eq_ab: "order_date a = order_date b"
    using sql_less_cases[of "order_date a" "order_date b"] by auto
  from ab eq_ab have "\<not> id' a < id' b"
    by (simp add: comes_before_alt)
  moreover from bc eq_ab eq_ac have "\<not> id' b < id' c"
    by (simp add: comes_before_alt)
  ultimately show False using id_ac by linarith
qed

lemma sorted_insert_ordered:
  "sorted_wrt (\<lambda>a b. \<not> comes_before b a) xs \<Longrightarrow>
     sorted_wrt (\<lambda>a b. \<not> comes_before b a) (insert_ordered x xs)"
proof (induction xs)
  case Nil
  then show ?case by simp
next
  case (Cons y ys)
  show ?case
  proof (cases "comes_before x y")
    case True
    then have "\<not> comes_before y x" by (rule comes_before_asym)
    moreover have "\<forall>z \<in> set ys. \<not> comes_before z x"
      using Cons.prems \<open>\<not> comes_before y x\<close> not_after_trans by auto
    ultimately show ?thesis using True Cons.prems by simp
  next
    case False
    then show ?thesis using Cons by (auto simp: set_insert_ordered)
  qed
qed

lemma sorted_order_by: "sorted_wrt (\<lambda>a b. \<not> comes_before b a) (order_by xs)"
  by (induction xs) (simp_all add: order_by_def sorted_insert_ordered)

lemma distinct_insert_ordered:
  "distinct (map f (insert_ordered x xs)) \<longleftrightarrow> f x \<notin> f ` set xs \<and> distinct (map f xs)"
  by (induction xs) (auto simp: set_insert_ordered)

lemma distinct_order_by: "distinct (map f (order_by xs)) \<longleftrightarrow> distinct (map f xs)"
  by (induction xs) (auto simp: order_by_def distinct_insert_ordered set_order_by[unfolded order_by_def])

lemma strictly_sorted:
  "sorted_wrt (\<lambda>a b. \<not> comes_before b a) xs \<Longrightarrow> distinct (map id' xs) \<Longrightarrow>
     sorted_wrt comes_before xs"
proof (induction xs)
  case Nil
  then show ?case by simp
next
  case (Cons x xs)
  then have "\<forall>y \<in> set xs. comes_before x y"
    using comes_before_total by fastforce
  with Cons show ?case by simp
qed

lemma getOrders_Inr:
  assumes "getOrders d q = Inr l"
  shows "1 \<le> page_of q" and "1 \<le> limit_of q" and "limit_of q \<le> 100"
    and "page (pagination l) = page_of q" and "limit (pagination l) = limit_of q"
    and "data l = take (nat (limit_of q)) (drop (nat ((page_of q - 1) * limit_of q))
                    (order_by (filter (satisfies q) (orders d))))"
    and "totalOrders (pagination l) = length (filter (satisfies q) (orders d))"
    and "totalPages (pagination l) =
           \<lceil>(of_nat (length (filter (satisfies q) (orders d))) :: rat) / of_int (limit_of q)\<rceil>"
    and "hasNextPage (pagination l) = (page_of q < totalPages (pagination l))"
    and "hasPreviousPage (pagination l) = (page_of q > 1)"
proof -
  from assms obtain fs ps where w: "build_where q = Inr (fs, ps)"
    by (auto simp: getOrders_def Let_def split: sum.splits if_splits)
  note s = build_where_satisfies(1)[OF w]
  from assms show "1 \<le> page_of q" and "1 \<le> limit_of q" and "limit_of q \<le> 100"
    by (auto simp: getOrders_def Let_def split: if_splits)
  then have lo: "\<And>xs::order list. limit_offset (limit_of q) ((page_of q - 1) * limit_of q) xs =
       take (nat (limit_of q)) (drop (nat ((page_of q - 1) * limit_of q)) xs)"
    by (simp add: limit_offset_def)
  from assms w show "page (pagination l) = page_of q" and "limit (pagination l) = limit_of q"
    and "data l = take (nat (limit_of q)) (drop (nat ((page_of q - 1) * limit_of q))
                    (order_by (filter (satisfies q) (orders d))))"
    and "totalOrders (pagination l) = length (filter (satisfies q) (orders d))"
    and "totalPages (pagination l) =
           \<lceil>(of_nat (length (filter (satisfies q) (orders d))) :: rat) / of_int (limit_of q)\<rceil>"
    and "hasNextPage (pagination l) = (page_of q < totalPages (pagination l))"
    and "hasPreviousPage (pagination l) = (page_of q > 1)"
    by (auto simp: getOrders_def Let_def s lo split: if_splits)
qed

lemma ceiling_quotient_le:
  fixes t :: nat and n p :: int
  assumes "0 < n"
  shows "\<lceil>(of_nat t :: rat) / of_int n\<rceil> \<le> p \<longleftrightarrow> int t \<le> p * n"
proof -
  have "\<lceil>(of_nat t :: rat) / of_int n\<rceil> \<le> p \<longleftrightarrow> (of_nat t :: rat) / of_int n \<le> of_int p"
    by (rule ceiling_le_iff)
  also have "\<dots> \<longleftrightarrow> (of_nat t :: rat) \<le> of_int p * of_int n"
    using assms by (simp add: pos_divide_le_eq)
  also have "\<dots> \<longleftrightarrow> (of_int (int t) :: rat) \<le> of_int (p * n)"
    by simp
  also have "\<dots> \<longleftrightarrow> int t \<le> p * n"
    by (rule of_int_le_iff)
  finally show ?thesis .
qed

lemma page_less_ceiling:
  fixes t :: nat and n p :: int
  assumes "0 < n"
  shows "p < \<lceil>(of_nat t :: rat) / of_int n\<rceil> \<longleftrightarrow> p * n < int t"
  using ceiling_quotient_le[OF assms, of t p] by linarith

subsection \<open>Listing: filters\<close>

text \<open>
  C3. In a listing that is answered, each filter that is present (a non-empty value of
  status, minAmount, maxAmount, startDate, endDate) contributes exactly one conjunct, in
  that order, and an absent one none; the conjuncts are combined by AND. Every row of
  \<open>data\<close> is a stored order that satisfies all of them, and \<open>totalOrders\<close> is the number
  of stored orders that do, whatever the limit and the offset.
\<close>

theorem listing_matches_filters:
  assumes "getOrders d q = Inr l"
  shows "(\<exists>fs ps. build_where q = Inr (fs, ps) \<and> length fs = length ps \<and>
                  zip fs ps = active_conjuncts q \<and> where_holds fs ps = satisfies q) \<and>
         set (data l) \<subseteq> set (orders d) \<and>
         (\<forall>r \<in> set (data l). satisfies q r) \<and>
         totalOrders (pagination l) = length (filter (satisfies q) (orders d))"
proof -
  from assms obtain fs ps where w: "build_where q = Inr (fs, ps)"
    by (auto simp: getOrders_def Let_def split: sum.splits if_splits)
  note s = build_where_satisfies[OF w]
  from assms w have dat: "data l = limit_offset (limit_of q) ((page_of q - 1) * limit_of q)
                              (order_by (filter (satisfies q) (orders d)))"
    and tot: "totalOrders (pagination l) = length (filter (satisfies q) (orders d))"
    by (auto simp: getOrders_def Let_def s(1) split: if_splits)
  have "set (data l) \<subseteq> set (filter (satisfies q) (orders d))"
    unfolding dat using set_limit_offset set_order_by by metis
  then have "set (data l) \<subseteq> set (orders d)" and "\<forall>r \<in> set (data l). satisfies q r"
    by auto
  with w s tot show ?thesis by blast
qed

lemma pending_10_100_clause: "build_where [''status'' \<mapsto> ''pending'', ''minAmount'' \<mapsto> ''10'', ''maxAmount'' \<mapsto> ''100'']
   = Inr ([Status_eq, Amount_ge, Amount_le], [SText ''pending'', SNum 10, SNum 100])"
  by (simp add: build_where_def filter_defs validStatuses_def scan_defs Let_def)

lemma pending_10_100_rows: "filter (where_holds [Status_eq, Amount_ge, Amount_le] [SText ''pending'', SNum 10, SNum 100]) (orders sample_db) = [alice_row]"
  by (simp add: sample_db_def alice_row_def bob_row_def carol_row_def sql_eq_def sql_ge_def sql_le_def sql_less_def)

lemma pending_10_100_listing: "getOrders sample_db [''status'' \<mapsto> ''pending'', ''minAmount'' \<mapsto> ''10'', ''maxAmount'' \<mapsto> ''100''] =
   Inr \<lparr>data = [alice_row], pagination = \<lparr>page = 1, limit = 10, totalOrders = 1, totalPages = 1, hasNextPage = False, hasPreviousPage = False\<rparr>\<rparr>"
proof -
  have p: "page_of [''status'' \<mapsto> ''pending'', ''minAmount'' \<mapsto> ''10'', ''maxAmount'' \<mapsto> ''100''] = 1"
    by (simp add: page_of_def or_default_def scan_defs)
  have l: "limit_of [''status'' \<mapsto> ''pending'', ''minAmount'' \<mapsto> ''10'', ''maxAmount'' \<mapsto> ''100''] = 10"
    by (simp add: limit_of_def or_default_def scan_defs)
  have c: "\<lceil>(1::rat) / 10\<rceil> = 1"
    by (simp add: ceiling_eq_iff)
  show ?thesis
    by (simp add: getOrders_def p l pending_10_100_clause pending_10_100_rows Let_def order_by_def limit_offset_def c)
qed

text \<open>The scenario of the specification,
  \<^verbatim>\<open>GET /orders?status=pending&minAmount=10&maxAmount=100\<close>, on the sample table.\<close>

theorem listing_matches_filters_witness:
  "getOrders sample_db [''status'' \<mapsto> ''pending'', ''minAmount'' \<mapsto> ''10'', ''maxAmount'' \<mapsto> ''100''] =
     Inr \<lparr>data = [alice_row],
          pagination = \<lparr>page = 1, limit = 10, totalOrders = 1, totalPages = 1,
                         hasNextPage = False, hasPreviousPage = False\<rparr>\<rparr> \<and>
   active_conjuncts [''status'' \<mapsto> ''pending'', ''minAmount'' \<mapsto> ''10'', ''maxAmount'' \<mapsto> ''100''] =
     [(Status_eq, SText ''pending''), (Amount_ge, SNum 10), (Amount_le, SNum 100)] \<and>
   satisfies [''status'' \<mapsto> ''pending'', ''minAmount'' \<mapsto> ''10'', ''maxAmount'' \<mapsto> ''100''] alice_row \<and>
   length (filter (satisfies [''status'' \<mapsto> ''pending'', ''minAmount'' \<mapsto> ''10'', ''maxAmount'' \<mapsto> ''100''])
             (orders sample_db)) = 1"
proof -
  let ?q = "[''status'' \<mapsto> ''pending'', ''minAmount'' \<mapsto> ''10'', ''maxAmount'' \<mapsto> ''100'']"
  have "active_conjuncts ?q = [(Status_eq, SText ''pending''), (Amount_ge, SNum 10), (Amount_le, SNum 100)]"
    using listing_matches_filters[OF pending_10_100_listing] by (auto simp: pending_10_100_clause)
  then show ?thesis
    using listing_matches_filters[OF pending_10_100_listing] pending_10_100_listing by simp
qed

subsection \<open>Listing: pages and order\<close>

lemma sorted_arrangement_unique:
  assumes "sorted_wrt comes_before xs" and "sorted_wrt comes_before ys" and "set xs = set ys"
  shows "xs = ys"
  using assms
proof (induction xs arbitrary: ys)
  case Nil
  then show ?case by simp
next
  case (Cons x xs)
  then obtain y ys' where ys: "ys = y # ys'"
    by (cases ys) auto
  have xy: "x = y"
  proof (rule ccontr)
    assume ne: "x \<noteq> y"
    with Cons.prems(3) ys have "x \<in> set ys'" and "y \<in> set xs"
      by auto
    with Cons.prems(1,2) ys have "comes_before y x" and "comes_before x y"
      by auto
    then show False
      using comes_before_asym by blast
  qed
  from Cons.prems(1) have "x \<notin> set xs"
    using comes_before_irrefl by auto
  moreover from Cons.prems(2) ys have "y \<notin> set ys'"
    using comes_before_irrefl by auto
  ultimately have "set xs = set ys'"
    using Cons.prems(3) ys xy by auto
  with Cons.IH[of ys'] Cons.prems(1,2) ys have "xs = ys'"
    by simp
  with xy ys show ?case by simp
qed

lemma sorted_sample: "order_by (orders sample_db) = [carol_row, bob_row, alice_row]"
  by (simp add: order_by_def sample_db_def comes_before_def sql_less_def alice_row_def
        bob_row_def carol_row_def)

lemma sample_ids: "distinct (map id' (orders sample_db))"
  by (simp add: sample_db_def alice_row_def bob_row_def carol_row_def)

lemma page_limit_2_2:
  "page_of [''page'' \<mapsto> ''2'', ''limit'' \<mapsto> ''2''] = 2"
  "limit_of [''page'' \<mapsto> ''2'', ''limit'' \<mapsto> ''2''] = 2"
  "build_where [''page'' \<mapsto> ''2'', ''limit'' \<mapsto> ''2''] = Inr ([], [])"
  by (simp_all add: page_of_def limit_of_def or_default_def scan_defs build_where_def filter_defs)


lemma page_limit_default:
  "page_of Map.empty = 1" "limit_of Map.empty = 10" "build_where Map.empty = Inr ([], [])"
  by (simp_all add: page_of_def limit_of_def or_default_def scan_defs build_where_def filter_defs)

lemma ceiling_3_2: "\<lceil>(3::rat) / 2\<rceil> = 2"
  by (simp add: ceiling_eq_iff)

lemma ceiling_3_10: "\<lceil>(3::rat) / 10\<rceil> = 1"
  by (simp add: ceiling_eq_iff)

lemma sample_page_2:
  "getOrders sample_db [''page'' \<mapsto> ''2'', ''limit'' \<mapsto> ''2''] =
     Inr \<lparr>data = [alice_row],
          pagination = \<lparr>page = 2, limit = 2, totalOrders = 3, totalPages = 2,
                         hasNextPage = False, hasPreviousPage = True\<rparr>\<rparr>"
proof -
  have "length (orders sample_db) = 3"
    by (simp add: sample_db_def)
  then show ?thesis
    by (simp add: getOrders_def Let_def page_limit_2_2 sorted_sample limit_offset_def ceiling_3_2)
qed

lemma sample_first_page:
  "getOrders sample_db Map.empty =
     Inr \<lparr>data = [carol_row, bob_row, alice_row],
          pagination = \<lparr>page = 1, limit = 10, totalOrders = 3, totalPages = 1,
                         hasNextPage = False, hasPreviousPage = False\<rparr>\<rparr>"
proof -
  have "length (orders sample_db) = 3"
    by (simp add: sample_db_def)
  then show ?thesis
    by (simp add: getOrders_def Let_def page_limit_default sorted_sample limit_offset_def ceiling_3_10)
qed

text \<open>
  C4. A listing that is answered has page >= 1 and 1 <= limit <= 100. Its data are the
  rows of the ordered matches from offset (page - 1) * limit on, at most limit of them;
  totalPages is the ceiling of totalOrders / limit, that is the one integer with
  (totalPages - 1) * limit < totalOrders <= totalPages * limit, and 0 when totalOrders
  is 0; hasPreviousPage is page > 1; hasNextPage is page < totalPages, which is the same
  as page * limit < totalOrders.
\<close>

theorem listing_pagination:
  assumes "getOrders d q = Inr l"
  shows "page (pagination l) = page_of q \<and> limit (pagination l) = limit_of q \<and>
         1 \<le> page_of q \<and> 1 \<le> limit_of q \<and> limit_of q \<le> 100 \<and>
         data l = take (nat (limit_of q)) (drop (nat ((page_of q - 1) * limit_of q))
                    (order_by (filter (satisfies q) (orders d)))) \<and>
         length (data l) \<le> nat (limit_of q) \<and>
         totalOrders (pagination l) = length (filter (satisfies q) (orders d)) \<and>
         totalPages (pagination l) =
           \<lceil>(of_nat (totalOrders (pagination l)) :: rat) / of_int (limit_of q)\<rceil> \<and>
         (totalPages (pagination l) - 1) * limit_of q < int (totalOrders (pagination l)) \<and>
         int (totalOrders (pagination l)) \<le> totalPages (pagination l) * limit_of q \<and>
         (totalOrders (pagination l) = 0 \<longrightarrow> totalPages (pagination l) = 0) \<and>
         hasPreviousPage (pagination l) = (1 < page_of q) \<and>
         hasNextPage (pagination l) = (page_of q < totalPages (pagination l)) \<and>
         hasNextPage (pagination l) = (page_of q * limit_of q < int (totalOrders (pagination l)))"
proof -
  note g = getOrders_Inr[OF assms]
  from g(2) have pos: "0 < limit_of q" by simp
  have tp: "totalPages (pagination l) =
           \<lceil>(of_nat (totalOrders (pagination l)) :: rat) / of_int (limit_of q)\<rceil>"
    by (simp add: g(7,8))
  have lo: "(totalPages (pagination l) - 1) * limit_of q < int (totalOrders (pagination l))"
    using ceiling_quotient_le[OF pos, of "totalOrders (pagination l)" "totalPages (pagination l) - 1"]
    by (simp add: tp[symmetric])
  have hi: "int (totalOrders (pagination l)) \<le> totalPages (pagination l) * limit_of q"
    using ceiling_quotient_le[OF pos, of "totalOrders (pagination l)" "totalPages (pagination l)"]
    by (simp add: tp[symmetric])
  have zero: "totalOrders (pagination l) = 0 \<longrightarrow> totalPages (pagination l) = 0"
    by (simp add: tp)
  have nxt: "hasNextPage (pagination l) = (page_of q * limit_of q < int (totalOrders (pagination l)))"
    using page_less_ceiling[OF pos, of "page_of q" "totalOrders (pagination l)"]
    by (simp add: g(9) tp)
  have len: "length (data l) \<le> nat (limit_of q)"
    by (simp add: g(6))
  show ?thesis
    using g(4,5,1,2,3,6) len g(7) tp lo hi zero g(10,9) nxt
    by (intro conjI)
qed

text \<open>\<^verbatim>\<open>GET /orders?page=2&limit=2\<close> on the sample table of three orders.\<close>

theorem listing_pagination_witness:
  "getOrders sample_db [''page'' \<mapsto> ''2'', ''limit'' \<mapsto> ''2''] =
     Inr \<lparr>data = [alice_row],
          pagination = \<lparr>page = 2, limit = 2, totalOrders = 3, totalPages = 2,
                         hasNextPage = False, hasPreviousPage = True\<rparr>\<rparr> \<and>
   take 2 (drop 2 (order_by (filter (satisfies [''page'' \<mapsto> ''2'', ''limit'' \<mapsto> ''2''])
                               (orders sample_db)))) = [alice_row] \<and>
   length (filter (satisfies [''page'' \<mapsto> ''2'', ''limit'' \<mapsto> ''2'']) (orders sample_db)) = 3"
  using listing_pagination[OF sample_page_2] sample_page_2
  by (simp add: page_limit_2_2)

text \<open>
  C5. The rows of a listing are sorted by order_date descending, then id descending: no
  row comes before an earlier one. The comparison is a strict order that decides any two
  rows of different id, so with the ids of the table distinct the listing is strictly
  sorted, it is a page of the only arrangement of the matches that is sorted, and of two
  rows with the same order_date the one with the higher id is listed first.
\<close>

theorem listing_order:
  assumes "getOrders d q = Inr l"
  shows "sorted_wrt (\<lambda>a b. \<not> comes_before b a) (data l) \<and>
         (distinct (map id' (orders d)) \<longrightarrow>
            sorted_wrt comes_before (data l) \<and>
            (\<forall>i j. i < j \<and> j < length (data l) \<and>
                   order_date (data l ! i) = order_date (data l ! j) \<longrightarrow>
                   id' (data l ! j) < id' (data l ! i)) \<and>
            (\<forall>ys. set ys = set (filter (satisfies q) (orders d)) \<and> sorted_wrt comes_before ys \<longrightarrow>
                   data l = take (nat (limit_of q)) (drop (nat ((page_of q - 1) * limit_of q)) ys))) \<and>
         (\<forall>a b. comes_before a b \<longleftrightarrow>
                  sql_less (order_date b) (order_date a) \<or>
                  (order_date a = order_date b \<and> id' b < id' a)) \<and>
         (\<forall>a b. id' a \<noteq> id' b \<longrightarrow> comes_before a b \<or> comes_before b a) \<and>
         (\<forall>a b. comes_before a b \<longrightarrow> \<not> comes_before b a) \<and>
         (\<forall>a b c. comes_before a b \<and> comes_before b c \<longrightarrow> comes_before a c)"
    (is "?W \<and> (?D \<longrightarrow> ?S \<and> ?T \<and> ?U) \<and> ?O1 \<and> ?O2 \<and> ?O3 \<and> ?O4")
proof (intro conjI impI)
  let ?all = "order_by (filter (satisfies q) (orders d))"
  note g = getOrders_Inr[OF assms]
  have dat: "data l = take (nat (limit_of q)) (drop (nat ((page_of q - 1) * limit_of q)) ?all)"
    by (rule g(6))
  show ?W
    unfolding dat by (simp add: sorted_order_by)
  show ?O1
    by (simp add: comes_before_alt)
  show ?O2
    by (simp add: comes_before_total)
  show ?O3
    by (simp add: comes_before_asym)
  show ?O4
    using comes_before_trans by blast
  assume dist: ?D
  then have "distinct (map id' (filter (satisfies q) (orders d)))"
    by (simp add: distinct_map_filter)
  then have "distinct (map id' ?all)"
    by (simp add: distinct_order_by)
  with sorted_order_by[of "filter (satisfies q) (orders d)"]
  have all: "sorted_wrt comes_before ?all"
    by (rule strictly_sorted)
  then show s: ?S
    unfolding dat by simp
  show ?T
  proof (intro allI impI)
    fix i j
    assume a: "i < j \<and> j < length (data l) \<and> order_date (data l ! i) = order_date (data l ! j)"
    then have "comes_before (data l ! i) (data l ! j)"
      using sorted_wrt_nth_less[OF s, of i j] by simp
    with a show "id' (data l ! j) < id' (data l ! i)"
      by (simp add: comes_before_alt sql_less_irrefl)
  qed
  show ?U
  proof (intro allI impI)
    fix ys
    assume "set ys = set (filter (satisfies q) (orders d)) \<and> sorted_wrt comes_before ys"
    then have "?all = ys"
      using sorted_arrangement_unique[OF all, of ys] by (simp add: set_order_by)
    then show "data l = take (nat (limit_of q)) (drop (nat ((page_of q - 1) * limit_of q)) ys)"
      using dat by simp
  qed
qed

text \<open>\<^verbatim>\<open>GET /orders\<close> on the sample table: Bob (id 2) and Alice (id 1) share their
  date.\<close>

theorem listing_order_witness:
  "getOrders sample_db Map.empty =
     Inr \<lparr>data = [carol_row, bob_row, alice_row],
          pagination = \<lparr>page = 1, limit = 10, totalOrders = 3, totalPages = 1,
                         hasNextPage = False, hasPreviousPage = False\<rparr>\<rparr> \<and>
   distinct (map id' (orders sample_db)) \<and>
   sorted_wrt comes_before [carol_row, bob_row, alice_row] \<and>
   order_date bob_row = order_date alice_row \<and> id' alice_row < id' bob_row"
proof -
  have "sorted_wrt comes_before [carol_row, bob_row, alice_row]"
    using listing_order[OF sample_first_page, THEN conjunct2, THEN conjunct1, THEN mp,
            OF sample_ids, THEN conjunct1]
    by simp
  moreover have "order_date bob_row = order_date alice_row \<and> id' alice_row < id' bob_row"
    by (simp add: alice_row_def bob_row_def)
  ultimately show ?thesis
    using sample_first_page sample_ids by simp
qed



end
